theory Spec2Isabelle
  imports Main
begin

section \<open>Messages, summary state and results\<close>

text \<open>
  The message classes of the chat library that \<^verbatim>\<open>summarize_messages\<close> distinguishes with
  \<^verbatim>\<open>isinstance\<close>. Every message has a content and an optional id; an AI message also
  carries its list of tool calls (each represented by its name).
\<close>

datatype message =
    SystemMessage string "string option"
  | HumanMessage string "string option"
  | AIMessage string "string option" "string list"
  | ToolMessage string "string option"

fun content :: "message \<Rightarrow> string" where
  "content (SystemMessage c i) = c"
| "content (HumanMessage c i) = c"
| "content (AIMessage c i tcs) = c"
| "content (ToolMessage c i) = c"

fun message_id :: "message \<Rightarrow> string option" where
  "message_id (SystemMessage c i) = i"
| "message_id (HumanMessage c i) = i"
| "message_id (AIMessage c i tcs) = i"
| "message_id (ToolMessage c i) = i"

fun isinstance_SystemMessage :: "message \<Rightarrow> bool" where
  "isinstance_SystemMessage (SystemMessage c i) = True"
| "isinstance_SystemMessage _ = False"

fun isinstance_HumanMessage :: "message \<Rightarrow> bool" where
  "isinstance_HumanMessage (HumanMessage c i) = True"
| "isinstance_HumanMessage _ = False"

text \<open>\<^verbatim>\<open>isinstance(m, AIMessage) and m.tool_calls\<close>: an AI message with a non-empty list of tool calls.\<close>

fun ai_with_tool_calls :: "message \<Rightarrow> bool" where
  "ai_with_tool_calls (AIMessage c i tcs) = (tcs \<noteq> [])"
| "ai_with_tool_calls _ = False"

type_synonym TokenCounter = "message list \<Rightarrow> int"

text \<open>Python's \<^verbatim>\<open>len\<close>, the default token counter: the number of messages in the list.\<close>

definition len :: TokenCounter where
  "len ms = int (length ms)"

text \<open>The cost of one message, \<^verbatim>\<open>token_counter([m])\<close>: the counter is only called on one-element lists.\<close>

definition message_tokens :: "TokenCounter \<Rightarrow> message \<Rightarrow> int" where
  "message_tokens tc m = tc [m]"

text \<open>
  The summary state. \<^verbatim>\<open>total_summarized_messages\<close> is a count: it starts at 0 and the
  function only ever adds the length of a list to it, so it is a natural number. A message
  id may be absent, so the ids recorded are optional strings.
\<close>

record SummaryInfo =
  summary :: string
  summarized_message_ids :: "string option list"
  total_summarized_messages :: nat

record SummarizationResult =
  messages :: "message list"
  summary_info :: "SummaryInfo option"

text \<open>
  Both failures of \<^verbatim>\<open>summarize_messages\<close> are a \<^verbatim>\<open>ValueError\<close>; they are told apart by
  their message. \<open>BudgetExceeded\<close> carries the \<^verbatim>\<open>max_total_tokens\<close> its message prints.
\<close>

datatype error = InvalidConfiguration | BudgetExceeded int

section \<open>Prompt templates\<close>

text \<open>
  A prompt template is used only through \<^verbatim>\<open>invoke\<close>: it maps its inputs to a list of
  messages. A placeholder splices the given messages in unchanged.
\<close>

definition DEFAULT_INITIAL_SUMMARY_PROMPT :: "message list \<Rightarrow> message list" where
  "DEFAULT_INITIAL_SUMMARY_PROMPT ms =
     ms @ [HumanMessage ''Create a summary of the conversation above:'' None]"

definition DEFAULT_EXISTING_SUMMARY_PROMPT :: "message list \<Rightarrow> string \<Rightarrow> message list" where
  "DEFAULT_EXISTING_SUMMARY_PROMPT ms existing_summary =
     ms @ [HumanMessage
             (''This is summary of the conversation to date: '' @ existing_summary
                @ [CHR 0x0A, CHR 0x0A]
                @ ''Extend the summary by taking into account the new messages above:'')
             None]"

definition DEFAULT_FINAL_SUMMARY_PROMPT ::
  "message list \<Rightarrow> string \<Rightarrow> message list \<Rightarrow> message list" where
  "DEFAULT_FINAL_SUMMARY_PROMPT system_message summ ms =
     system_message @ [SystemMessage (''Summary of conversation earlier: '' @ summ) None] @ ms"

section \<open>The keyword arguments of \<^verbatim>\<open>summarize_messages\<close>\<close>

text \<open>
  The model is used only through \<^verbatim>\<open>model.invoke(prompt).content\<close>: it maps a prompt to the
  text of its response.
\<close>

record options =
  model :: "message list \<Rightarrow> string"
  max_tokens :: int
  max_summary_tokens :: int
  token_counter :: TokenCounter
  initial_summary_prompt :: "message list \<Rightarrow> message list"
  existing_summary_prompt :: "message list \<Rightarrow> string \<Rightarrow> message list"
  final_prompt :: "message list \<Rightarrow> string \<Rightarrow> message list \<Rightarrow> message list"

text \<open>The default arguments: \<^verbatim>\<open>max_summary_tokens = 1\<close>, \<^verbatim>\<open>token_counter = len\<close> and the default prompts.\<close>

definition default_options :: "(message list \<Rightarrow> string) \<Rightarrow> int \<Rightarrow> options" where
  "default_options mdl mt =
     \<lparr>model = mdl, max_tokens = mt, max_summary_tokens = 1,
      token_counter = len,
      initial_summary_prompt = DEFAULT_INITIAL_SUMMARY_PROMPT,
      existing_summary_prompt = DEFAULT_EXISTING_SUMMARY_PROMPT,
      final_prompt = DEFAULT_FINAL_SUMMARY_PROMPT\<rparr>"

section \<open>The steps of \<^verbatim>\<open>summarize_messages\<close>\<close>

subsection \<open>The system message (lines 106-114)\<close>

definition existing_system_message :: "message list \<Rightarrow> message option" where
  "existing_system_message msgs =
     (case msgs of
        [] \<Rightarrow> None
      | m # rest \<Rightarrow> if isinstance_SystemMessage m then Some m else None)"

text \<open>The list \<^verbatim>\<open>messages\<close> after \<^verbatim>\<open>messages = messages[1:]\<close>.\<close>

definition messages_to_process :: "message list \<Rightarrow> message list" where
  "messages_to_process msgs =
     (case existing_system_message msgs of None \<Rightarrow> msgs | Some m \<Rightarrow> drop 1 msgs)"

text \<open>The budget \<^verbatim>\<open>max_tokens\<close> after \<^verbatim>\<open>max_tokens -= token_counter([existing_system_message])\<close>.\<close>

definition adjusted_max_tokens :: "TokenCounter \<Rightarrow> int \<Rightarrow> message list \<Rightarrow> int" where
  "adjusted_max_tokens tc mt msgs =
     (case existing_system_message msgs of None \<Rightarrow> mt | Some m \<Rightarrow> mt - message_tokens tc m)"

text \<open>\<^verbatim>\<open>messages if existing_system_message is None else [existing_system_message] + messages\<close>\<close>

definition with_system_message :: "message option \<Rightarrow> message list \<Rightarrow> message list" where
  "with_system_message sm ms = (case sm of None \<Rightarrow> ms | Some m \<Rightarrow> [m] @ ms)"

text \<open>\<^verbatim>\<open>[existing_system_message] if existing_system_message else []\<close>\<close>

definition system_message_list :: "message option \<Rightarrow> message list" where
  "system_message_list sm = (case sm of Some m \<Rightarrow> [m] | None \<Rightarrow> [])"

text \<open>\<^verbatim>\<open>summary_info.total_summarized_messages if summary_info else 0\<close>\<close>

definition previous_total :: "SummaryInfo option \<Rightarrow> nat" where
  "previous_total existing_summary_info =
     (case existing_summary_info of None \<Rightarrow> 0 | Some si \<Rightarrow> total_summarized_messages si)"

subsection \<open>The single pass that counts tokens and finds the cutoff (lines 131-151)\<close>

text \<open>The absolute maximum, \<^verbatim>\<open>max_total_tokens = max_tokens * 2 - max_summary_tokens\<close>.\<close>

definition max_total_tokens :: "int \<Rightarrow> int \<Rightarrow> int" where
  "max_total_tokens mt mst = mt * 2 - mst"

text \<open>
  \<open>find_cutoff tc mt mtt ms i n_tokens idx\<close> runs the loop body for the messages \<open>ms\<close>, the
  first of which has index \<open>i\<close>, from the running total \<open>n_tokens\<close> and the cutoff \<open>idx\<close>.
\<close>

fun find_cutoff ::
  "TokenCounter \<Rightarrow> int \<Rightarrow> int \<Rightarrow> message list \<Rightarrow> nat \<Rightarrow> int \<Rightarrow> nat \<Rightarrow> error + (int \<times> nat)" where
  "find_cutoff tc mt mtt [] i n_tokens idx = Inr (n_tokens, idx)"
| "find_cutoff tc mt mtt (m # ms) i n_tokens idx =
     (let n_tokens' = n_tokens + message_tokens tc m;
          idx' = (if n_tokens' \<le> mt then i else idx)
      in if n_tokens' \<ge> mtt then Inl (BudgetExceeded mtt)
         else find_cutoff tc mt mtt ms (i + 1) n_tokens' idx')"

text \<open>
  The whole pass: \<^verbatim>\<open>idx = max(0, total_summarized_messages - 1)\<close>, then
  \<^verbatim>\<open>for i in range(total_summarized_messages, len(messages))\<close>.
\<close>

definition count_tokens ::
  "TokenCounter \<Rightarrow> int \<Rightarrow> int \<Rightarrow> message list \<Rightarrow> nat \<Rightarrow> error + (int \<times> nat)" where
  "count_tokens tc mt mtt ms tsm =
     find_cutoff tc mt mtt (drop tsm ms) tsm 0 (nat (max 0 (int tsm - 1)))"

subsection \<open>The messages to summarize (lines 153-172)\<close>

text \<open>\<^verbatim>\<open>messages[total_summarized_messages : idx + 1]\<close>, or \<^verbatim>\<open>None\<close> under the budget.\<close>

definition select_messages_to_summarize ::
  "int \<Rightarrow> int \<Rightarrow> message list \<Rightarrow> nat \<Rightarrow> nat \<Rightarrow> message list option" where
  "select_messages_to_summarize n_tokens mt ms tsm idx =
     (if n_tokens \<le> mt then None
      else Some (take (idx + 1 - tsm) (drop tsm ms)))"

text \<open>The \<^verbatim>\<open>while\<close> loop that pops the last message while it is an AI message with tool calls or a human message.\<close>

definition must_pop :: "message \<Rightarrow> bool" where
  "must_pop m = (ai_with_tool_calls m \<or> isinstance_HumanMessage m)"

function pop_unsafe :: "message list \<Rightarrow> message list" where
  "pop_unsafe ms =
     (if ms \<noteq> [] \<and> must_pop (last ms) then pop_unsafe (butlast ms) else ms)"
  by pat_completeness auto
termination
  by (relation "measure length") auto

declare pop_unsafe.simps [simp del]

subsection \<open>Generating the summary (lines 174-197)\<close>

text \<open>The prompt for the model: the existing-summary prompt if there is a summary, else the initial one.\<close>

definition summary_messages :: "options \<Rightarrow> SummaryInfo option \<Rightarrow> message list \<Rightarrow> message list" where
  "summary_messages opts existing_summary_info messages_to_summarize =
     (case existing_summary_info of
        Some si \<Rightarrow> existing_summary_prompt opts messages_to_summarize (summary si)
      | None \<Rightarrow> initial_summary_prompt opts messages_to_summarize)"

text \<open>
  Returns the new \<^verbatim>\<open>summary_info\<close>, the new \<^verbatim>\<open>total_summarized_messages\<close> and the prompts
  the model was invoked with.
\<close>

definition generate_summary ::
  "options \<Rightarrow> SummaryInfo option \<Rightarrow> nat \<Rightarrow> message list option
     \<Rightarrow> SummaryInfo option \<times> nat \<times> message list list" where
  "generate_summary opts existing_summary_info tsm messages_to_summarize =
     (case messages_to_summarize of
        None \<Rightarrow> (existing_summary_info, tsm, [])
      | Some [] \<Rightarrow> (existing_summary_info, tsm, [])
      | Some (m # ms) \<Rightarrow>
          (let prompt = summary_messages opts existing_summary_info (m # ms);
               response = model opts prompt;
               tsm' = tsm + length (m # ms)
           in (Some \<lparr>summary = response,
                     summarized_message_ids = map message_id (m # ms),
                     total_summarized_messages = tsm'\<rparr>,
               tsm', [prompt])))"

subsection \<open>\<^verbatim>\<open>summarize_messages\<close>\<close>

text \<open>
  The result is the outcome of the call (the \<^verbatim>\<open>ValueError\<close> raised or the
  \<^verbatim>\<open>SummarizationResult\<close> returned) and the list of prompts \<^verbatim>\<open>model.invoke\<close> was
  called with during the call.
\<close>

definition summarize_messages ::
  "options \<Rightarrow> message list \<Rightarrow> SummaryInfo option
     \<Rightarrow> (error + SummarizationResult) \<times> message list list" where
  "summarize_messages opts msgs existing_summary_info =
     (if max_summary_tokens opts \<ge> max_tokens opts then (Inl InvalidConfiguration, [])
      else
        let sm = existing_system_message msgs;
            ms = messages_to_process msgs;
            mt = adjusted_max_tokens (token_counter opts) (max_tokens opts) msgs
        in if ms = [] then
             (Inr \<lparr>messages = with_system_message sm ms,
                   summary_info = existing_summary_info\<rparr>, [])
           else
             let tsm = previous_total existing_summary_info;
                 mtt = max_total_tokens mt (max_summary_tokens opts)
             in case count_tokens (token_counter opts) mt mtt ms tsm of
                  Inl e \<Rightarrow> (Inl e, [])
                | Inr (n_tokens, idx) \<Rightarrow>
                    (case generate_summary opts existing_summary_info tsm
                            (map_option pop_unsafe
                               (select_messages_to_summarize n_tokens mt ms tsm idx)) of
                       (Some si, tsm', calls) \<Rightarrow>
                         (Inr \<lparr>messages =
                                 final_prompt opts (system_message_list sm)
                                   (summary si) (drop tsm' ms),
                               summary_info = Some si\<rparr>, calls)
                     | (None, tsm', calls) \<Rightarrow>
                         (Inr \<lparr>messages = with_system_message sm ms,
                               summary_info = None\<rparr>, calls)))"

subsection \<open>The values of one call\<close>

text \<open>
  Names for the values the local variables of one call hold, in terms of the arguments of
  the call: the budget \<^verbatim>\<open>max_tokens\<close> after the system message was subtracted, the absolute
  maximum computed from it, the outcome of the counting pass, the messages from
  \<^verbatim>\<open>total_summarized_messages\<close> on, the slice
  \<^verbatim>\<open>messages[total_summarized_messages : idx + 1]\<close>, and the sum of the costs of messages.
\<close>

abbreviation call_max_tokens :: "options \<Rightarrow> message list \<Rightarrow> int" where
  "call_max_tokens opts msgs \<equiv>
     adjusted_max_tokens (token_counter opts) (max_tokens opts) msgs"

abbreviation call_max_total_tokens :: "options \<Rightarrow> message list \<Rightarrow> int" where
  "call_max_total_tokens opts msgs \<equiv>
     max_total_tokens (call_max_tokens opts msgs) (max_summary_tokens opts)"

abbreviation call_count_tokens ::
  "options \<Rightarrow> message list \<Rightarrow> SummaryInfo option \<Rightarrow> error + (int \<times> nat)" where
  "call_count_tokens opts msgs esi \<equiv>
     count_tokens (token_counter opts) (call_max_tokens opts msgs)
       (call_max_total_tokens opts msgs) (messages_to_process msgs) (previous_total esi)"

abbreviation unsummarized :: "message list \<Rightarrow> SummaryInfo option \<Rightarrow> message list" where
  "unsummarized msgs esi \<equiv> drop (previous_total esi) (messages_to_process msgs)"

abbreviation slice_to_cutoff :: "message list \<Rightarrow> SummaryInfo option \<Rightarrow> nat \<Rightarrow> message list" where
  "slice_to_cutoff msgs esi idx \<equiv> take (idx + 1 - previous_total esi) (unsummarized msgs esi)"

abbreviation tokens_of :: "options \<Rightarrow> message list \<Rightarrow> int" where
  "tokens_of opts ms \<equiv> sum_list (map (message_tokens (token_counter opts)) ms)"

section \<open>Conversations of the test suite and further examples\<close>

text \<open>The mock chat model of the tests: it answers every prompt with the same text.\<close>

definition mock_model :: "message list \<Rightarrow> string" where
  "mock_model prompt = ''This is a mock summary.''"

text \<open>The options the tests use: \<^verbatim>\<open>token_counter=len\<close>, the default prompts, and the two budgets.\<close>

definition test_options :: "int \<Rightarrow> int \<Rightarrow> options" where
  "test_options mt mst = (default_options mock_model mt)\<lparr>max_summary_tokens := mst\<rparr>"

text \<open>The nine messages of \<^verbatim>\<open>test_summarize_first_time\<close>.\<close>

definition nine_messages :: "message list" where
  "nine_messages =
     [HumanMessage ''Message 1'' (Some ''1''), AIMessage ''Response 1'' (Some ''2'') [],
      HumanMessage ''Message 2'' (Some ''3''), AIMessage ''Response 2'' (Some ''4'') [],
      HumanMessage ''Message 3'' (Some ''5''), AIMessage ''Response 3'' (Some ''6'') [],
      HumanMessage ''Message 4'' (Some ''7''), AIMessage ''Response 4'' (Some ''8'') [],
      HumanMessage ''Latest message'' (Some ''9'')]"

definition helpful_assistant :: message where
  "helpful_assistant = SystemMessage ''You are a helpful assistant.'' None"

text \<open>The state the first call on the nine messages returns (budget 6, summary budget 0).\<close>

definition six_summarized :: SummaryInfo where
  "six_summarized =
     \<lparr>summary = ''This is a mock summary.'',
      summarized_message_ids =
        [Some ''1'', Some ''2'', Some ''3'', Some ''4'', Some ''5'', Some ''6''],
      total_summarized_messages = 6\<rparr>"

text \<open>A conversation in which two questions follow the first answer.\<close>

definition five_messages :: "message list" where
  "five_messages =
     [AIMessage ''Welcome'' (Some ''1'') [], HumanMessage ''Question 1'' (Some ''2''),
      HumanMessage ''Question 2'' (Some ''3''), AIMessage ''Answer 1'' (Some ''4'') [],
      AIMessage ''Answer 2'' (Some ''5'') []]"

definition one_summarized :: SummaryInfo where
  "one_summarized =
     \<lparr>summary = ''This is a mock summary.'', summarized_message_ids = [Some ''1''],
      total_summarized_messages = 1\<rparr>"

text \<open>The state the second call on the five messages returns (budget 3, summary budget 0).\<close>

definition four_summarized :: SummaryInfo where
  "four_summarized =
     \<lparr>summary = ''This is a mock summary.'',
      summarized_message_ids = [Some ''2'', Some ''3'', Some ''4''],
      total_summarized_messages = 4\<rparr>"

text \<open>The summary message the final prompt makes of the mock summary.\<close>

definition mock_summary_message :: message where
  "mock_summary_message =
     SystemMessage ''Summary of conversation earlier: This is a mock summary.'' None"

text \<open>A counter that approximates tokens by characters: the lengths of the contents.\<close>

definition count_characters :: TokenCounter where
  "count_characters ms = sum_list (map (\<lambda>m. int (length (content m))) ms)"

definition character_options :: "int \<Rightarrow> int \<Rightarrow> options" where
  "character_options mt mst = (test_options mt mst)\<lparr>token_counter := count_characters\<rparr>"

text \<open>A single message of twelve characters.\<close>

definition twelve_characters :: "message list" where
  "twelve_characters = [HumanMessage ''Twelve chars'' None]"

text \<open>The state the call on the system message and the nine messages returns (budget 6, summary budget 0).\<close>

definition first_four_summarized :: SummaryInfo where
  "first_four_summarized =
     \<lparr>summary = ''This is a mock summary.'',
      summarized_message_ids = [Some ''1'', Some ''2'', Some ''3'', Some ''4''],
      total_summarized_messages = 4\<rparr>"

section \<open>Properties of the steps\<close>

lemma pop_unsafe_Nil: "pop_unsafe [] = []"
  by (simp add: pop_unsafe.simps)

lemma pop_unsafe_snoc:
  "pop_unsafe (xs @ [x]) = (if must_pop x then pop_unsafe xs else xs @ [x])"
  by (subst pop_unsafe.simps) simp

lemma pop_unsafe_take:
  "\<exists>k\<le>length ms. pop_unsafe ms = take k ms \<and> (\<forall>m\<in>set (drop k ms). must_pop m)
      \<and> (k = 0 \<or> \<not> must_pop (ms ! (k - 1)))"
proof (induction ms rule: rev_induct)
  case Nil
  then show ?case by (simp add: pop_unsafe_Nil)
next
  case (snoc x xs)
  show ?case
  proof (cases "must_pop x")
    case True
    from snoc obtain k where k: "k \<le> length xs" "pop_unsafe xs = take k xs"
      "\<forall>m\<in>set (drop k xs). must_pop m" "k = 0 \<or> \<not> must_pop (xs ! (k - 1))"
      by blast
    have "k = 0 \<or> \<not> must_pop ((xs @ [x]) ! (k - 1))"
      using k(1,4) by (cases k) (auto simp: nth_append)
    with k True show ?thesis
      by (intro exI[of _ k]) (auto simp: pop_unsafe_snoc)
  next
    case False
    then show ?thesis
      by (intro exI[of _ "length (xs @ [x])"]) (auto simp: pop_unsafe_snoc)
  qed
qed

lemma pop_unsafe_last: "pop_unsafe ms \<noteq> [] \<Longrightarrow> \<not> must_pop (last (pop_unsafe ms))"
proof (induction ms rule: rev_induct)
  case Nil
  then show ?case by (simp add: pop_unsafe_Nil)
next
  case (snoc x xs)
  then show ?case by (auto simp: pop_unsafe_snoc split: if_splits)
qed

lemma find_cutoff_Inr:
  "find_cutoff tc mt mtt ms i n idx = Inr (n', idx')
     \<Longrightarrow> n' = n + sum_list (map (message_tokens tc) ms)"
proof (induction ms arbitrary: i n idx)
  case Nil
  then show ?case by simp
next
  case (Cons m ms)
  from Cons.prems obtain j where
    "find_cutoff tc mt mtt ms (i + 1) (n + message_tokens tc m) j = Inr (n', idx')"
    by (auto simp: Let_def split: if_splits)
  from Cons.IH [OF this] show ?case by simp
qed

lemma find_cutoff_Inl:
  "find_cutoff tc mt mtt ms i n idx = Inl e \<Longrightarrow> e = BudgetExceeded mtt"
  by (induction ms arbitrary: i n idx) (auto simp: Let_def split: if_splits)

lemma find_cutoff_idx:
  "find_cutoff tc mt mtt ms i n idx = Inr (n', idx')
     \<Longrightarrow> idx' = idx \<or> (i \<le> idx' \<and> idx' < i + length ms)"
proof (induction ms arbitrary: i n idx)
  case Nil
  then show ?case by simp
next
  case (Cons m ms)
  then show ?case
    by (fastforce simp: Let_def split: if_splits)
qed

lemma find_cutoff_fails_iff:
  "(\<exists>e. find_cutoff tc mt mtt ms i n idx = Inl e)
     \<longleftrightarrow> (\<exists>k<length ms. mtt \<le> n + sum_list (map (message_tokens tc) (take (Suc k) ms)))"
proof (induction ms arbitrary: i n idx)
  case Nil
  then show ?case by simp
next
  case (Cons m ms)
  show ?case
  proof (cases "mtt \<le> n + message_tokens tc m")
    case True
    then show ?thesis by (auto simp: Let_def intro: exI[of _ 0])
  next
    case False
    have "(\<exists>k<length (m # ms). mtt \<le> n + sum_list (map (message_tokens tc) (take (Suc k) (m # ms))))
      \<longleftrightarrow> (\<exists>k<length ms. mtt \<le> (n + message_tokens tc m) + sum_list (map (message_tokens tc) (take (Suc k) ms)))"
      (is "?L \<longleftrightarrow> ?R")
    proof
      assume ?L
      then obtain k where k: "k < length (m # ms)"
        "mtt \<le> n + sum_list (map (message_tokens tc) (take (Suc k) (m # ms)))" by blast
      with False obtain k' where "k = Suc k'" by (cases k) auto
      with k show ?R by (auto simp: add.assoc)
    next
      assume ?R
      then obtain k where "k < length ms"
        "mtt \<le> (n + message_tokens tc m) + sum_list (map (message_tokens tc) (take (Suc k) ms))"
        by blast
      then show ?L by (intro exI[of _ "Suc k"]) (auto simp: add.assoc)
    qed
    with False Cons.IH show ?thesis by (simp add: Let_def)
  qed
qed

lemma generate_summary_eq:
  "generate_summary opts esi tsm mts =
     (if mts = None \<or> mts = Some [] then (esi, tsm, [])
      else (Some \<lparr>summary = model opts (summary_messages opts esi (the mts)),
                  summarized_message_ids = map message_id (the mts),
                  total_summarized_messages = tsm + length (the mts)\<rparr>,
            tsm + length (the mts), [summary_messages opts esi (the mts)]))"
  by (auto simp: generate_summary_def Let_def split: option.splits list.splits)

lemma pop_unsafe_is_take: "pop_unsafe ms = take (length (pop_unsafe ms)) ms"
proof -
  obtain k where "k \<le> length ms" "pop_unsafe ms = take k ms"
    using pop_unsafe_take [of ms] by blast
  then show ?thesis by simp
qed

lemma pop_unsafe_length: "length (pop_unsafe ms) \<le> length ms"
  using pop_unsafe_take [of ms] by auto

lemma pop_unsafe_of_take:
  "pop_unsafe (take j xs) = take (length (pop_unsafe (take j xs))) xs"
proof -
  have "length (pop_unsafe (take j xs)) \<le> j"
    using pop_unsafe_length [of "take j xs"] by simp
  then have "take (length (pop_unsafe (take j xs))) (take j xs)
      = take (length (pop_unsafe (take j xs))) xs"
    by (simp add: min_def)
  with pop_unsafe_is_take [of "take j xs"] show ?thesis by simp
qed

lemma count_tokens_fails_iff:
  "(\<exists>e. count_tokens tc mt mtt ms tsm = Inl e)
     \<longleftrightarrow> (\<exists>k<length (drop tsm ms).
            mtt \<le> sum_list (map (message_tokens tc) (take (Suc k) (drop tsm ms))))"
  unfolding count_tokens_def using find_cutoff_fails_iff [of tc mt mtt "drop tsm ms" tsm 0]
  by simp

lemma count_tokens_succeeds:
  "count_tokens tc mt mtt ms tsm = Inr p
     \<Longrightarrow> \<not> (\<exists>k<length (drop tsm ms).
            mtt \<le> sum_list (map (message_tokens tc) (take (Suc k) (drop tsm ms))))"
  using count_tokens_fails_iff [of tc mt mtt ms tsm] by auto

lemma count_tokens_Inl:
  "count_tokens tc mt mtt ms tsm = Inl e \<Longrightarrow> e = BudgetExceeded mtt"
  unfolding count_tokens_def by (rule find_cutoff_Inl)

lemma count_tokens_Inr:
  "count_tokens tc mt mtt ms tsm = Inr (n, idx)
     \<Longrightarrow> n = sum_list (map (message_tokens tc) (drop tsm ms))"
  unfolding count_tokens_def using find_cutoff_Inr [of tc mt mtt "drop tsm ms" tsm 0] by simp

lemma prefix_sum_ge_element:
  assumes "\<forall>x\<in>set xs. (0::int) \<le> f x" and "k < length xs"
  shows "f (xs ! k) \<le> sum_list (map f (take (Suc k) xs))"
proof -
  have "take (Suc k) xs = take k xs @ [xs ! k]"
    using assms(2) by (simp add: take_Suc_conv_app_nth)
  moreover have "0 \<le> sum_list (map f (take k xs))"
    using assms(1) by (intro sum_list_nonneg) (auto dest: in_set_takeD)
  ultimately show ?thesis by simp
qed

lemma suffix_running_totals:
  assumes "\<forall>x\<in>set xs. (0::int) \<le> f x"
    and "\<not> (\<exists>k<length xs. c \<le> sum_list (map f (take (Suc k) xs)))"
  shows "\<not> (\<exists>k<length (drop j xs). c \<le> sum_list (map f (take (Suc k) (drop j xs))))"
proof
  assume "\<exists>k<length (drop j xs). c \<le> sum_list (map f (take (Suc k) (drop j xs)))"
  then obtain k where k: "k < length (drop j xs)"
    "c \<le> sum_list (map f (take (Suc k) (drop j xs)))" by blast
  have "take (j + Suc k) xs = take j xs @ take (Suc k) (drop j xs)"
    by (rule take_add)
  moreover have "0 \<le> sum_list (map f (take j xs))"
    using assms(1) by (intro sum_list_nonneg) (auto dest: in_set_takeD)
  ultimately have "sum_list (map f (take (Suc k) (drop j xs)))
      \<le> sum_list (map f (take (Suc (j + k)) xs))"
    by simp
  with k(2) have "c \<le> sum_list (map f (take (Suc (j + k)) xs))" by simp
  moreover from k(1) have "j + k < length xs" by simp
  ultimately show False using assms(2) by blast
qed

section \<open>The five ways a call ends\<close>

lemma summarize_messages_invalid:
  "max_tokens opts \<le> max_summary_tokens opts
     \<Longrightarrow> summarize_messages opts msgs esi = (Inl InvalidConfiguration, [])"
  by (simp add: summarize_messages_def)

lemma summarize_messages_empty:
  "max_summary_tokens opts < max_tokens opts \<Longrightarrow> messages_to_process msgs = []
     \<Longrightarrow> summarize_messages opts msgs esi =
           (Inr \<lparr>messages = with_system_message (existing_system_message msgs) [],
                 summary_info = esi\<rparr>, [])"
  by (simp add: summarize_messages_def)

lemma summarize_messages_exceeded:
  "max_summary_tokens opts < max_tokens opts \<Longrightarrow> messages_to_process msgs \<noteq> []
     \<Longrightarrow> call_count_tokens opts msgs esi = Inl e
     \<Longrightarrow> summarize_messages opts msgs esi = (Inl e, [])"
  by (simp add: summarize_messages_def)

lemma summarize_messages_counted:
  assumes "max_summary_tokens opts < max_tokens opts" and "messages_to_process msgs \<noteq> []"
    and "call_count_tokens opts msgs esi = Inr (n, idx)"
    and "slice = (if n \<le> call_max_tokens opts msgs then []
                  else pop_unsafe (slice_to_cutoff msgs esi idx))"
  shows "summarize_messages opts msgs esi =
     (if slice = [] then
        (Inr \<lparr>messages =
                (case esi of
                   None \<Rightarrow> with_system_message (existing_system_message msgs)
                             (messages_to_process msgs)
                 | Some si \<Rightarrow> final_prompt opts
                               (system_message_list (existing_system_message msgs)) (summary si)
                               (unsummarized msgs esi)),
              summary_info = esi\<rparr>, [])
      else
        (Inr \<lparr>messages =
                final_prompt opts (system_message_list (existing_system_message msgs))
                  (model opts (summary_messages opts esi slice))
                  (drop (previous_total esi + length slice) (messages_to_process msgs)),
              summary_info =
                Some \<lparr>summary = model opts (summary_messages opts esi slice),
                      summarized_message_ids = map message_id slice,
                      total_summarized_messages = previous_total esi + length slice\<rparr>\<rparr>,
         [summary_messages opts esi slice]))"
  using assms
  by (auto simp: summarize_messages_def Let_def generate_summary_eq
      select_messages_to_summarize_def split: option.splits)

lemma summarize_messages_cases [case_names invalid empty exceeded unchanged generated]:
  obtains
    "max_tokens opts \<le> max_summary_tokens opts"
    "summarize_messages opts msgs esi = (Inl InvalidConfiguration, [])"
  | "max_summary_tokens opts < max_tokens opts" "messages_to_process msgs = []"
    "summarize_messages opts msgs esi =
       (Inr \<lparr>messages = with_system_message (existing_system_message msgs) [],
             summary_info = esi\<rparr>, [])"
  | "max_summary_tokens opts < max_tokens opts" "messages_to_process msgs \<noteq> []"
    "call_count_tokens opts msgs esi = Inl (BudgetExceeded (call_max_total_tokens opts msgs))"
    "summarize_messages opts msgs esi =
       (Inl (BudgetExceeded (call_max_total_tokens opts msgs)), [])"
  | n idx where
    "max_summary_tokens opts < max_tokens opts" "messages_to_process msgs \<noteq> []"
    "call_count_tokens opts msgs esi = Inr (n, idx)"
    "n \<le> call_max_tokens opts msgs \<or> pop_unsafe (slice_to_cutoff msgs esi idx) = []"
    "summarize_messages opts msgs esi =
       (Inr \<lparr>messages =
               (case esi of
                  None \<Rightarrow> with_system_message (existing_system_message msgs)
                            (messages_to_process msgs)
                | Some si \<Rightarrow> final_prompt opts
                              (system_message_list (existing_system_message msgs)) (summary si)
                              (unsummarized msgs esi)),
             summary_info = esi\<rparr>, [])"
  | n idx slice where
    "max_summary_tokens opts < max_tokens opts" "messages_to_process msgs \<noteq> []"
    "call_count_tokens opts msgs esi = Inr (n, idx)"
    "call_max_tokens opts msgs < n"
    "slice = pop_unsafe (slice_to_cutoff msgs esi idx)" "slice \<noteq> []"
    "summarize_messages opts msgs esi =
       (Inr \<lparr>messages =
               final_prompt opts (system_message_list (existing_system_message msgs))
                 (model opts (summary_messages opts esi slice))
                 (drop (previous_total esi + length slice) (messages_to_process msgs)),
             summary_info =
               Some \<lparr>summary = model opts (summary_messages opts esi slice),
                     summarized_message_ids = map message_id slice,
                     total_summarized_messages = previous_total esi + length slice\<rparr>\<rparr>,
        [summary_messages opts esi slice])"
proof (cases "max_tokens opts \<le> max_summary_tokens opts")
  case True
  then show ?thesis using that(1) summarize_messages_invalid by blast
next
  case valid: False
  show ?thesis
  proof (cases "messages_to_process msgs = []")
    case True
    with valid show ?thesis using that(2) summarize_messages_empty by force
  next
    case nonempty: False
    show ?thesis
    proof (cases "call_count_tokens opts msgs esi")
      case (Inl e)
      then have e: "e = BudgetExceeded (call_max_total_tokens opts msgs)"
        unfolding count_tokens_def by (rule find_cutoff_Inl)
      with Inl valid nonempty show ?thesis
        using that(3) summarize_messages_exceeded [of opts msgs esi e] by force
    next
      case (Inr p)
      obtain n idx where p: "p = (n, idx)" by (cases p)
      define slice where "slice = (if n \<le> call_max_tokens opts msgs then []
                  else pop_unsafe (slice_to_cutoff msgs esi idx))"
      note eq = summarize_messages_counted [OF _ nonempty Inr [unfolded p] slice_def]
      show ?thesis
      proof (cases "slice = []")
        case True
        with eq valid have "summarize_messages opts msgs esi =
       (Inr \<lparr>messages =
               (case esi of
                  None \<Rightarrow> with_system_message (existing_system_message msgs)
                            (messages_to_process msgs)
                | Some si \<Rightarrow> final_prompt opts
                              (system_message_list (existing_system_message msgs)) (summary si)
                              (unsummarized msgs esi)),
             summary_info = esi\<rparr>, [])" by simp
        moreover from True
        have "n \<le> call_max_tokens opts msgs \<or> pop_unsafe (slice_to_cutoff msgs esi idx) = []"
          by (auto simp: slice_def split: if_splits)
        ultimately show ?thesis using that(4) valid nonempty Inr p by force
      next
        case False
        then have n: "call_max_tokens opts msgs < n"
          and s: "slice = pop_unsafe (slice_to_cutoff msgs esi idx)"
          by (auto simp: slice_def split: if_splits)
        from eq valid False have "summarize_messages opts msgs esi =
       (Inr \<lparr>messages =
               final_prompt opts (system_message_list (existing_system_message msgs))
                 (model opts (summary_messages opts esi slice))
                 (drop (previous_total esi + length slice) (messages_to_process msgs)),
             summary_info =
               Some \<lparr>summary = model opts (summary_messages opts esi slice),
                     summarized_message_ids = map message_id slice,
                     total_summarized_messages = previous_total esi + length slice\<rparr>\<rparr>,
        [summary_messages opts esi slice])" by simp
        then show ?thesis using that(5) valid nonempty Inr p n s False by force
      qed
    qed
  qed
qed

lemma summarize_messages_exceeded_iff:
  assumes "max_summary_tokens opts < max_tokens opts"
  shows "summarize_messages opts msgs esi
           = (Inl (BudgetExceeded (call_max_total_tokens opts msgs)), [])
     \<longleftrightarrow> (\<exists>k<length (unsummarized msgs esi).
            call_max_total_tokens opts msgs
              \<le> tokens_of opts (take (Suc k) (unsummarized msgs esi)))"
proof (cases opts msgs esi rule: summarize_messages_cases)
  case invalid
  with assms show ?thesis by simp
next
  case empty
  then show ?thesis by simp
next
  case exceeded
  from exceeded(3) have "\<exists>e. call_count_tokens opts msgs esi = Inl e" by blast
  then have "\<exists>k<length (unsummarized msgs esi).
            call_max_total_tokens opts msgs
              \<le> tokens_of opts (take (Suc k) (unsummarized msgs esi))"
    using count_tokens_fails_iff by blast
  with exceeded(4) show ?thesis by simp
next
  case (unchanged n idx)
  from unchanged(3) have "\<not> (\<exists>k<length (unsummarized msgs esi).
            call_max_total_tokens opts msgs
              \<le> tokens_of opts (take (Suc k) (unsummarized msgs esi)))"
    by (rule count_tokens_succeeds)
  with unchanged(5) show ?thesis by simp
next
  case (generated n idx slice)
  from generated(3) have "\<not> (\<exists>k<length (unsummarized msgs esi).
            call_max_total_tokens opts msgs
              \<le> tokens_of opts (take (Suc k) (unsummarized msgs esi)))"
    by (rule count_tokens_succeeds)
  with generated(7) show ?thesis by simp
qed

lemma summarize_messages_under_budget:
  assumes valid: "max_summary_tokens opts < max_tokens opts"
    and nonempty: "messages_to_process msgs \<noteq> []"
    and nofail: "\<not> (\<exists>k<length (unsummarized msgs esi).
            call_max_total_tokens opts msgs
              \<le> tokens_of opts (take (Suc k) (unsummarized msgs esi)))"
    and under: "tokens_of opts (unsummarized msgs esi) \<le> call_max_tokens opts msgs"
  shows "summarize_messages opts msgs esi =
       (Inr \<lparr>messages =
               (case esi of
                  None \<Rightarrow> with_system_message (existing_system_message msgs)
                            (messages_to_process msgs)
                | Some si \<Rightarrow> final_prompt opts
                              (system_message_list (existing_system_message msgs)) (summary si)
                              (unsummarized msgs esi)),
             summary_info = esi\<rparr>, [])"
proof -
  from nofail have "\<not> (\<exists>e. call_count_tokens opts msgs esi = Inl e)"
    using count_tokens_fails_iff by blast
  then obtain n idx where c: "call_count_tokens opts msgs esi = Inr (n, idx)"
    by (cases "call_count_tokens opts msgs esi") auto
  then have "n = tokens_of opts (unsummarized msgs esi)" by (rule count_tokens_Inr)
  with under have "n \<le> call_max_tokens opts msgs" by simp
  then have "[] = (if n \<le> call_max_tokens opts msgs then []
                  else pop_unsafe (slice_to_cutoff msgs esi idx))" by simp
  from summarize_messages_counted [OF valid nonempty c this] show ?thesis by simp
qed

lemma summarize_messages_generated:
  assumes "summarize_messages opts msgs esi = (res, calls)" and "calls \<noteq> []"
  obtains k where "0 < k"
    and "previous_total esi + k \<le> length (messages_to_process msgs)"
    and "max_summary_tokens opts < max_tokens opts"
    and "call_max_tokens opts msgs < tokens_of opts (unsummarized msgs esi)"
    and "calls = [summary_messages opts esi (take k (unsummarized msgs esi))]"
    and "res = Inr \<lparr>messages =
               final_prompt opts (system_message_list (existing_system_message msgs))
                 (model opts (summary_messages opts esi (take k (unsummarized msgs esi))))
                 (drop (previous_total esi + k) (messages_to_process msgs)),
             summary_info =
               Some \<lparr>summary = model opts
                                  (summary_messages opts esi (take k (unsummarized msgs esi))),
                     summarized_message_ids = map message_id (take k (unsummarized msgs esi)),
                     total_summarized_messages = previous_total esi + k\<rparr>\<rparr>"
proof (cases opts msgs esi rule: summarize_messages_cases)
  case invalid
  with assms show ?thesis by simp
next
  case empty
  with assms show ?thesis by simp
next
  case exceeded
  with assms show ?thesis by simp
next
  case (unchanged n idx)
  with assms show ?thesis by simp
next
  case (generated n idx slice)
  define k where "k = length slice"
  have slice: "slice = take k (unsummarized msgs esi)"
    unfolding k_def generated(5) by (rule pop_unsafe_of_take)
  have len: "length slice = k" by (simp add: k_def)
  from generated(6) have pos: "0 < k" by (simp add: k_def)
  have "k \<le> length (unsummarized msgs esi)"
    using slice len by (metis length_take min.cobounded1)
  with pos have le: "previous_total esi + k \<le> length (messages_to_process msgs)" by simp
  from generated(3) have "n = tokens_of opts (unsummarized msgs esi)"
    by (rule count_tokens_Inr)
  with generated(4) have over: "call_max_tokens opts msgs < tokens_of opts (unsummarized msgs esi)"
    by simp
  from generated(7) assms(1)
  have "calls = [summary_messages opts esi slice]"
    and "res = Inr \<lparr>messages =
               final_prompt opts (system_message_list (existing_system_message msgs))
                 (model opts (summary_messages opts esi slice))
                 (drop (previous_total esi + k) (messages_to_process msgs)),
             summary_info =
               Some \<lparr>summary = model opts (summary_messages opts esi slice),
                     summarized_message_ids = map message_id slice,
                     total_summarized_messages = previous_total esi + k\<rparr>\<rparr>"
    by (simp_all add: len)
  then show ?thesis
    unfolding slice using that [OF pos le generated(1) over] by blast
qed

lemma summarize_messages_not_generated:
  assumes "summarize_messages opts msgs esi = (Inr r, [])"
  shows "summary_info r = esi"
proof (cases opts msgs esi rule: summarize_messages_cases)
  case (generated n idx slice)
  with assms show ?thesis by simp
qed (use assms in auto)

lemma system_message_first:
  assumes "existing_system_message msgs = Some sm"
    and "final_prompt opts = DEFAULT_FINAL_SUMMARY_PROMPT"
    and "summarize_messages opts msgs esi = (Inr r, calls)"
  shows "\<exists>tail. messages r = sm # tail"
proof (cases opts msgs esi rule: summarize_messages_cases)
  case invalid
  with assms show ?thesis by simp
next
  case empty
  with assms show ?thesis by (auto simp: with_system_message_def)
next
  case exceeded
  with assms show ?thesis by simp
next
  case (unchanged n idx)
  with assms show ?thesis
    by (cases esi)
      (auto simp: with_system_message_def system_message_list_def DEFAULT_FINAL_SUMMARY_PROMPT_def)
next
  case (generated n idx slice)
  with assms show ?thesis
    by (auto simp: system_message_list_def DEFAULT_FINAL_SUMMARY_PROMPT_def)
qed

lemma system_message_split:
  assumes "msgs = SystemMessage c i # rest"
  shows "existing_system_message msgs = Some (SystemMessage c i)"
    and "messages_to_process msgs = rest"
    and "adjusted_max_tokens tc mt msgs = mt - message_tokens tc (SystemMessage c i)"
  using assms
  by (simp_all add: existing_system_message_def messages_to_process_def adjusted_max_tokens_def)

section \<open>The calls on the five messages\<close>

lemma five_messages_first_call:
  "summarize_messages (test_options 3 0) five_messages None =
     (Inr \<lparr>messages = mock_summary_message # drop 1 five_messages,
           summary_info = Some one_summarized\<rparr>,
      [DEFAULT_INITIAL_SUMMARY_PROMPT (take 1 five_messages)])"
  by code_simp

lemma five_messages_second_call:
  "summarize_messages (test_options 3 0) five_messages (Some one_summarized) =
     (Inr \<lparr>messages = mock_summary_message # drop 4 five_messages,
           summary_info = Some four_summarized\<rparr>,
      [DEFAULT_EXISTING_SUMMARY_PROMPT (take 3 (drop 1 five_messages))
         ''This is a mock summary.''])"
  by code_simp

section \<open>Properties of \<^verbatim>\<open>summarize_messages\<close>\<close>

subsection \<open>Configuration check\<close>

text \<open>
  Claim C6. If \<^verbatim>\<open>max_summary_tokens >= max_tokens\<close>, the call fails with the configuration
  error whatever the messages, the existing summary, the token counter, the model and the
  prompts are, and the model was not invoked: the check comes before anything else is looked at.
\<close>

theorem invalid_configuration_before_messages:
  "max_tokens opts \<le> max_summary_tokens opts
     \<Longrightarrow> summarize_messages opts msgs esi = (Inl InvalidConfiguration, [])"
  by (simp add: summarize_messages_def)

theorem invalid_configuration_before_messages_witness:
  "max_tokens (test_options 6 6) \<le> max_summary_tokens (test_options 6 6)
     \<and> summarize_messages (test_options 6 6) nine_messages None = (Inl InvalidConfiguration, [])"
  using invalid_configuration_before_messages [of "test_options 6 6" nine_messages None]
  by (simp add: test_options_def default_options_def)

subsection \<open>Model invocations\<close>

text \<open>
  Claim C9. In one call the model is invoked at most once. It is invoked exactly once when
  the configuration is valid, there are messages to process, the counting pass ends above
  the budget without reaching the absolute maximum, and the slice up to the cutoff is not
  empty after the trailing messages were popped; in every other case it is not invoked.
\<close>

theorem at_most_one_model_invocation:
  "length (snd (summarize_messages opts msgs esi)) \<le> 1
   \<and> (length (snd (summarize_messages opts msgs esi)) = 1 \<longleftrightarrow>
        max_summary_tokens opts < max_tokens opts \<and> messages_to_process msgs \<noteq> []
        \<and> (\<exists>n idx. call_count_tokens opts msgs esi = Inr (n, idx)
              \<and> call_max_tokens opts msgs < n
              \<and> pop_unsafe (slice_to_cutoff msgs esi idx) \<noteq> []))"
proof (cases opts msgs esi rule: summarize_messages_cases)
  case invalid
  then show ?thesis by simp
next
  case empty
  then show ?thesis by simp
next
  case exceeded
  then show ?thesis by simp
next
  case (unchanged n idx)
  then show ?thesis by auto
next
  case (generated n idx slice)
  then show ?thesis by auto
qed

theorem at_most_one_model_invocation_witness:
  "length (snd (summarize_messages (test_options 6 0) nine_messages None)) = 1"
proof -
  have "max_summary_tokens (test_options 6 0) < max_tokens (test_options 6 0)"
    by code_simp
  moreover have "messages_to_process nine_messages \<noteq> []"
    by code_simp
  moreover have "call_count_tokens (test_options 6 0) nine_messages None = Inr (9, 5)"
    by code_simp
  moreover have "call_max_tokens (test_options 6 0) nine_messages < 9"
    by code_simp
  moreover have "pop_unsafe (slice_to_cutoff nine_messages None 5) \<noteq> []"
    by code_simp
  ultimately show ?thesis
    using at_most_one_model_invocation [of "test_options 6 0" nine_messages None]
    by blast
qed

subsection \<open>The summarized slice\<close>

text \<open>
  Claim C3. Popping turns a slice into its longest prefix that is empty or does not end on
  a human message or an AI message with tool calls: only such messages are removed, and
  only from the end. Whenever a call invokes the model, the slice it summarizes (the one
  in the prompt, whose ids the new state records) is the popped slice up to the cutoff, it
  is not empty, and its last message is neither a human message nor an AI message with
  tool calls.
\<close>

theorem summarized_slice_ends_safely:
  "(\<exists>k\<le>length cand. pop_unsafe cand = take k cand
        \<and> (\<forall>m\<in>set (drop k cand). must_pop m)
        \<and> (pop_unsafe cand = [] \<or> \<not> must_pop (last (pop_unsafe cand))))
   \<and> (summarize_messages opts msgs esi = (res, calls) \<and> calls \<noteq> [] \<longrightarrow>
        (\<exists>n idx slice r si.
            call_count_tokens opts msgs esi = Inr (n, idx)
          \<and> slice = pop_unsafe (slice_to_cutoff msgs esi idx)
          \<and> calls = [summary_messages opts esi slice]
          \<and> res = Inr r \<and> summary_info r = Some si
          \<and> summarized_message_ids si = map message_id slice
          \<and> slice \<noteq> []
          \<and> \<not> isinstance_HumanMessage (last slice)
          \<and> \<not> ai_with_tool_calls (last slice)))"
proof
  obtain k where "k \<le> length cand" "pop_unsafe cand = take k cand"
    "\<forall>m\<in>set (drop k cand). must_pop m"
    using pop_unsafe_take [of cand] by blast
  moreover have "pop_unsafe cand = [] \<or> \<not> must_pop (last (pop_unsafe cand))"
    using pop_unsafe_last [of cand] by blast
  ultimately show "\<exists>k\<le>length cand. pop_unsafe cand = take k cand
        \<and> (\<forall>m\<in>set (drop k cand). must_pop m)
        \<and> (pop_unsafe cand = [] \<or> \<not> must_pop (last (pop_unsafe cand)))"
    by blast
next
  show "summarize_messages opts msgs esi = (res, calls) \<and> calls \<noteq> [] \<longrightarrow>
        (\<exists>n idx slice r si.
            call_count_tokens opts msgs esi = Inr (n, idx)
          \<and> slice = pop_unsafe (slice_to_cutoff msgs esi idx)
          \<and> calls = [summary_messages opts esi slice]
          \<and> res = Inr r \<and> summary_info r = Some si
          \<and> summarized_message_ids si = map message_id slice
          \<and> slice \<noteq> []
          \<and> \<not> isinstance_HumanMessage (last slice)
          \<and> \<not> ai_with_tool_calls (last slice))"
  proof
    assume "summarize_messages opts msgs esi = (res, calls) \<and> calls \<noteq> []"
    then have a: "summarize_messages opts msgs esi = (res, calls)" "calls \<noteq> []"
      by simp_all
    show "\<exists>n idx slice r si.
            call_count_tokens opts msgs esi = Inr (n, idx)
          \<and> slice = pop_unsafe (slice_to_cutoff msgs esi idx)
          \<and> calls = [summary_messages opts esi slice]
          \<and> res = Inr r \<and> summary_info r = Some si
          \<and> summarized_message_ids si = map message_id slice
          \<and> slice \<noteq> []
          \<and> \<not> isinstance_HumanMessage (last slice)
          \<and> \<not> ai_with_tool_calls (last slice)"
    proof (cases opts msgs esi rule: summarize_messages_cases)
      case invalid
      with a show ?thesis by simp
    next
      case empty
      with a show ?thesis by simp
    next
      case exceeded
      with a show ?thesis by simp
    next
      case (unchanged n idx)
      with a show ?thesis by simp
    next
      case (generated n idx slice)
      from generated(5,6) have "\<not> must_pop (last slice)"
        using pop_unsafe_last [of "slice_to_cutoff msgs esi idx"] by simp
      then have "\<not> isinstance_HumanMessage (last slice)" "\<not> ai_with_tool_calls (last slice)"
        by (simp_all add: must_pop_def)
      with generated a show ?thesis by auto
    qed
  qed
qed

theorem summarized_slice_ends_safely_witness:
  "snd (summarize_messages (test_options 3 0) five_messages None) \<noteq> []
   \<and> (\<exists>n idx slice r si.
            call_count_tokens (test_options 3 0) five_messages None = Inr (n, idx)
          \<and> slice = pop_unsafe (slice_to_cutoff five_messages None idx)
          \<and> snd (summarize_messages (test_options 3 0) five_messages None)
              = [summary_messages (test_options 3 0) None slice]
          \<and> fst (summarize_messages (test_options 3 0) five_messages None) = Inr r
          \<and> summary_info r = Some si
          \<and> summarized_message_ids si = map message_id slice
          \<and> slice \<noteq> []
          \<and> \<not> isinstance_HumanMessage (last slice)
          \<and> \<not> ai_with_tool_calls (last slice))
   \<and> pop_unsafe (take 3 five_messages) = take 1 five_messages"
proof -
  have "snd (summarize_messages (test_options 3 0) five_messages None) \<noteq> []"
    by (simp add: five_messages_first_call)
  moreover have "pop_unsafe (take 3 five_messages) = take 1 five_messages"
    by code_simp
  ultimately show ?thesis
    using summarized_slice_ends_safely [of "take 3 five_messages" "test_options 3 0"
        five_messages None "fst (summarize_messages (test_options 3 0) five_messages None)"
        "snd (summarize_messages (test_options 3 0) five_messages None)"]
    by simp
qed

text \<open>
  Claim C5. Whenever a call invokes the model, the summarized slice is the \<open>k > 0\<close> messages
  that start at index \<^verbatim>\<open>total_summarized_messages\<close> of the existing summary (0 without one)
  in the list without the system message; the new total is the previous one plus \<open>k\<close>, and
  the new ids are the ids of these \<open>k\<close> messages in order, not those of earlier calls.
\<close>

theorem new_summary_counts_from_previous_total:
  assumes "summarize_messages opts msgs esi = (res, calls)" and "calls \<noteq> []"
  shows "\<exists>r si k. res = Inr r \<and> summary_info r = Some si \<and> 0 < k
     \<and> previous_total esi + k \<le> length (messages_to_process msgs)
     \<and> calls = [summary_messages opts esi (take k (unsummarized msgs esi))]
     \<and> summary si = model opts (summary_messages opts esi (take k (unsummarized msgs esi)))
     \<and> summarized_message_ids si = map message_id (take k (unsummarized msgs esi))
     \<and> total_summarized_messages si = previous_total esi + k"
proof (cases opts msgs esi rule: summarize_messages_cases)
  case invalid
  with assms show ?thesis by simp
next
  case empty
  with assms show ?thesis by simp
next
  case exceeded
  with assms show ?thesis by simp
next
  case (unchanged n idx)
  with assms show ?thesis by simp
next
  case (generated n idx slice)
  define k where "k = length slice"
  define si where "si = \<lparr>summary = model opts (summary_messages opts esi slice),
                     summarized_message_ids = map message_id slice,
                     total_summarized_messages = previous_total esi + k\<rparr>"
  define r where "r = \<lparr>messages =
               final_prompt opts (system_message_list (existing_system_message msgs))
                 (model opts (summary_messages opts esi slice))
                 (drop (previous_total esi + k) (messages_to_process msgs)),
             summary_info = Some si\<rparr>"
  have slice: "take k (unsummarized msgs esi) = slice"
    unfolding k_def generated(5) by (rule pop_unsafe_of_take [symmetric])
  from generated(6) have pos: "0 < k" by (simp add: k_def)
  have "k \<le> length (unsummarized msgs esi)"
    using slice k_def by (metis length_take min.cobounded1)
  with pos have le: "previous_total esi + k \<le> length (messages_to_process msgs)" by simp
  from generated(7) assms(1) have "res = Inr r" "calls = [summary_messages opts esi slice]"
    by (simp_all add: r_def si_def k_def)
  then have "res = Inr r \<and> summary_info r = Some si \<and> 0 < k
     \<and> previous_total esi + k \<le> length (messages_to_process msgs)
     \<and> calls = [summary_messages opts esi (take k (unsummarized msgs esi))]
     \<and> summary si = model opts (summary_messages opts esi (take k (unsummarized msgs esi)))
     \<and> summarized_message_ids si = map message_id (take k (unsummarized msgs esi))
     \<and> total_summarized_messages si = previous_total esi + k"
    using pos le by (simp add: slice r_def si_def)
  then show ?thesis by blast
qed

theorem new_summary_counts_from_previous_total_witness:
  "summarize_messages (test_options 3 0) five_messages (Some one_summarized) =
     (Inr \<lparr>messages = mock_summary_message # drop 4 five_messages,
           summary_info = Some four_summarized\<rparr>,
      [DEFAULT_EXISTING_SUMMARY_PROMPT (take 3 (drop 1 five_messages))
         ''This is a mock summary.''])
   \<and> (\<exists>k. 0 < k \<and> previous_total (Some one_summarized) + k \<le> length (messages_to_process five_messages)
         \<and> summarized_message_ids four_summarized
             = map message_id (take k (unsummarized five_messages (Some one_summarized)))
         \<and> total_summarized_messages four_summarized = previous_total (Some one_summarized) + k)"
  using new_summary_counts_from_previous_total [OF five_messages_second_call]
    five_messages_second_call
  by auto

subsection \<open>The total never decreases\<close>

text \<open>
  Claim C7. A successful call with an existing summary returns a summary whose
  \<^verbatim>\<open>total_summarized_messages\<close> is at least the existing one: the existing summary itself
  when the model was not invoked, and a strictly larger total when it was.
\<close>

theorem total_summarized_never_decreases:
  assumes "summarize_messages opts msgs (Some si) = (Inr r, calls)"
  shows "\<exists>si'. summary_info r = Some si'
     \<and> total_summarized_messages si \<le> total_summarized_messages si'
     \<and> (calls = [] \<longrightarrow> si' = si)
     \<and> (calls \<noteq> [] \<longrightarrow> total_summarized_messages si < total_summarized_messages si')"
proof (cases opts msgs "Some si" rule: summarize_messages_cases)
  case invalid
  with assms show ?thesis by simp
next
  case empty
  with assms show ?thesis by auto
next
  case exceeded
  with assms show ?thesis by simp
next
  case (unchanged n idx)
  with assms show ?thesis by auto
next
  case (generated n idx slice)
  with assms show ?thesis by (auto simp: previous_total_def)
qed

theorem total_summarized_never_decreases_witness:
  "summarize_messages (test_options 3 0) five_messages (Some one_summarized) =
     (Inr \<lparr>messages = mock_summary_message # drop 4 five_messages,
           summary_info = Some four_summarized\<rparr>,
      [DEFAULT_EXISTING_SUMMARY_PROMPT (take 3 (drop 1 five_messages))
         ''This is a mock summary.''])
   \<and> total_summarized_messages one_summarized < total_summarized_messages four_summarized"
  using total_summarized_never_decreases [OF five_messages_second_call]
    five_messages_second_call
  by auto

subsection \<open>The counting pass\<close>

text \<open>
  Claim C2. With a valid configuration, if the running total of the message costs, counted
  from index \<^verbatim>\<open>total_summarized_messages\<close> on, reaches the absolute maximum
  \<^verbatim>\<open>max_tokens * 2 - max_summary_tokens\<close> (with \<^verbatim>\<open>max_tokens\<close> already reduced by the cost
  of the system message), the call fails with the budget error and the model is not
  invoked. In particular, when no message has a negative cost, one message among those
  counted whose own cost reaches the maximum makes the call fail.
\<close>

theorem budget_exceeded_raised:
  assumes "max_summary_tokens opts < max_tokens opts"
  shows "((\<exists>k<length (unsummarized msgs esi).
             call_max_total_tokens opts msgs
               \<le> tokens_of opts (take (Suc k) (unsummarized msgs esi)))
          \<longrightarrow> summarize_messages opts msgs esi
                = (Inl (BudgetExceeded (call_max_total_tokens opts msgs)), []))
       \<and> ((\<forall>m\<in>set (unsummarized msgs esi). 0 \<le> message_tokens (token_counter opts) m)
            \<and> (\<exists>m\<in>set (unsummarized msgs esi).
                  call_max_total_tokens opts msgs \<le> message_tokens (token_counter opts) m)
          \<longrightarrow> summarize_messages opts msgs esi
                = (Inl (BudgetExceeded (call_max_total_tokens opts msgs)), []))"
proof (intro conjI impI)
  assume "\<exists>k<length (unsummarized msgs esi).
             call_max_total_tokens opts msgs
               \<le> tokens_of opts (take (Suc k) (unsummarized msgs esi))"
  then show "summarize_messages opts msgs esi
                = (Inl (BudgetExceeded (call_max_total_tokens opts msgs)), [])"
    by (simp only: summarize_messages_exceeded_iff [OF assms])
next
  assume a: "(\<forall>m\<in>set (unsummarized msgs esi). 0 \<le> message_tokens (token_counter opts) m)
            \<and> (\<exists>m\<in>set (unsummarized msgs esi).
                  call_max_total_tokens opts msgs \<le> message_tokens (token_counter opts) m)"
  then obtain k where k: "k < length (unsummarized msgs esi)"
    "call_max_total_tokens opts msgs
       \<le> message_tokens (token_counter opts) (unsummarized msgs esi ! k)"
    by (metis in_set_conv_nth)
  from a have "message_tokens (token_counter opts) (unsummarized msgs esi ! k)
      \<le> tokens_of opts (take (Suc k) (unsummarized msgs esi))"
    using k(1) by (intro prefix_sum_ge_element) simp_all
  with k have "\<exists>k<length (unsummarized msgs esi).
             call_max_total_tokens opts msgs
               \<le> tokens_of opts (take (Suc k) (unsummarized msgs esi))"
    by (intro exI[of _ k]) simp
  then show "summarize_messages opts msgs esi
                = (Inl (BudgetExceeded (call_max_total_tokens opts msgs)), [])"
    by (simp only: summarize_messages_exceeded_iff [OF assms])
qed

theorem budget_exceeded_raised_witness:
  "max_summary_tokens (test_options 5 1) < max_tokens (test_options 5 1)
   \<and> call_max_total_tokens (test_options 5 1) nine_messages
        \<le> tokens_of (test_options 5 1) (take (Suc 8) (unsummarized nine_messages None))
   \<and> summarize_messages (test_options 5 1) nine_messages None = (Inl (BudgetExceeded 9), [])
   \<and> max_summary_tokens (character_options 6 0) < max_tokens (character_options 6 0)
   \<and> list_all (\<lambda>m. 0 \<le> message_tokens (token_counter (character_options 6 0)) m)
         (unsummarized twelve_characters None)
   \<and> call_max_total_tokens (character_options 6 0) twelve_characters
        \<le> message_tokens (token_counter (character_options 6 0))
             (HumanMessage ''Twelve chars'' None)
   \<and> summarize_messages (character_options 6 0) twelve_characters None
        = (Inl (BudgetExceeded 12), [])"
proof -
  have v1: "max_summary_tokens (test_options 5 1) < max_tokens (test_options 5 1)"
    by code_simp
  have l1: "(8::nat) < length (unsummarized nine_messages None)"
    by code_simp
  have r1: "call_max_total_tokens (test_options 5 1) nine_messages
        \<le> tokens_of (test_options 5 1) (take (Suc 8) (unsummarized nine_messages None))"
    by code_simp
  have c1: "call_max_total_tokens (test_options 5 1) nine_messages = 9"
    by code_simp
  have v2: "max_summary_tokens (character_options 6 0) < max_tokens (character_options 6 0)"
    by code_simp
  have a2: "list_all (\<lambda>m. 0 \<le> message_tokens (token_counter (character_options 6 0)) m)
         (unsummarized twelve_characters None)"
    by code_simp
  then have n2: "\<forall>m\<in>set (unsummarized twelve_characters None).
         0 \<le> message_tokens (token_counter (character_options 6 0)) m"
    by (simp only: list_all_iff)
  have m2: "HumanMessage ''Twelve chars'' None \<in> set (unsummarized twelve_characters None)"
    by code_simp
  have r2: "call_max_total_tokens (character_options 6 0) twelve_characters
        \<le> message_tokens (token_counter (character_options 6 0))
             (HumanMessage ''Twelve chars'' None)"
    by code_simp
  have c2: "call_max_total_tokens (character_options 6 0) twelve_characters = 12"
    by code_simp
  from l1 r1 have "summarize_messages (test_options 5 1) nine_messages None
      = (Inl (BudgetExceeded 9), [])"
    using budget_exceeded_raised [OF v1, where msgs = nine_messages and esi = None] unfolding c1 by blast
  moreover from n2 m2 r2 have "summarize_messages (character_options 6 0) twelve_characters None
        = (Inl (BudgetExceeded 12), [])"
    using budget_exceeded_raised [OF v2, where msgs = twelve_characters and esi = None] unfolding c2 by blast
  ultimately show ?thesis using v1 r1 v2 a2 r2 by blast
qed

text \<open>
  Claim C4, as the code has it. The counting pass starts at index
  \<^verbatim>\<open>total_summarized_messages\<close> of the existing summary (0 without one) of the list
  without the system message: the call fails with the budget error exactly when a running
  total over the messages from that index on reaches the absolute maximum, the total the
  pass returns is the sum of the costs of the messages from that index on, and the model
  is invoked only if that sum exceeds the budget. The index
  \<^verbatim>\<open>max(0, total_summarized_messages - 1)\<close> is only the cutoff the pass starts with.
\<close>

theorem scan_starts_at_previous_total:
  assumes "max_summary_tokens opts < max_tokens opts"
  shows "(summarize_messages opts msgs esi
            = (Inl (BudgetExceeded (call_max_total_tokens opts msgs)), [])
          \<longleftrightarrow> (\<exists>k<length (unsummarized msgs esi).
                 call_max_total_tokens opts msgs
                   \<le> tokens_of opts (take (Suc k) (unsummarized msgs esi))))
       \<and> (\<forall>n idx. call_count_tokens opts msgs esi = Inr (n, idx)
             \<longrightarrow> n = tokens_of opts (unsummarized msgs esi)
               \<and> (idx = nat (max 0 (int (previous_total esi) - 1))
                    \<or> previous_total esi \<le> idx \<and> idx < length (messages_to_process msgs)))
       \<and> (snd (summarize_messages opts msgs esi) \<noteq> []
             \<longrightarrow> call_max_tokens opts msgs < tokens_of opts (unsummarized msgs esi))"
proof (intro conjI allI impI)
  show "summarize_messages opts msgs esi
            = (Inl (BudgetExceeded (call_max_total_tokens opts msgs)), [])
          \<longleftrightarrow> (\<exists>k<length (unsummarized msgs esi).
                 call_max_total_tokens opts msgs
                   \<le> tokens_of opts (take (Suc k) (unsummarized msgs esi)))"
    by (rule summarize_messages_exceeded_iff [OF assms])
next
  fix n idx
  assume "call_count_tokens opts msgs esi = Inr (n, idx)"
  then show "n = tokens_of opts (unsummarized msgs esi)"
    by (rule count_tokens_Inr)
next
  fix n idx
  assume c: "call_count_tokens opts msgs esi = Inr (n, idx)"
  then have "idx = nat (max 0 (int (previous_total esi) - 1))
     \<or> previous_total esi \<le> idx
        \<and> idx < previous_total esi + length (unsummarized msgs esi)"
    unfolding count_tokens_def by (rule find_cutoff_idx)
  then show "idx = nat (max 0 (int (previous_total esi) - 1))
          \<or> previous_total esi \<le> idx \<and> idx < length (messages_to_process msgs)"
    by auto
next
  assume "snd (summarize_messages opts msgs esi) \<noteq> []"
  then show "call_max_tokens opts msgs < tokens_of opts (unsummarized msgs esi)"
  proof (cases opts msgs esi rule: summarize_messages_cases)
    case (generated n idx slice)
    from generated(3) have "n = tokens_of opts (unsummarized msgs esi)"
      by (rule count_tokens_Inr)
    with generated(4) show ?thesis by simp
  qed simp_all
qed

theorem scan_starts_at_previous_total_witness:
  "max_summary_tokens (test_options 3 1) < max_tokens (test_options 3 1)
   \<and> call_count_tokens (test_options 3 1) five_messages (Some one_summarized) = Inr (4, 3)
   \<and> 4 = tokens_of (test_options 3 1) (unsummarized five_messages (Some one_summarized))
   \<and> snd (summarize_messages (test_options 3 1) five_messages (Some one_summarized)) \<noteq> []
   \<and> call_max_tokens (test_options 3 1) five_messages
       < tokens_of (test_options 3 1) (unsummarized five_messages (Some one_summarized))"
proof -
  have v: "max_summary_tokens (test_options 3 1) < max_tokens (test_options 3 1)"
    by code_simp
  have c: "call_count_tokens (test_options 3 1) five_messages (Some one_summarized) = Inr (4, 3)"
    by code_simp
  have s: "snd (summarize_messages (test_options 3 1) five_messages (Some one_summarized)) \<noteq> []"
    by code_simp
  from v c s show ?thesis
    using scan_starts_at_previous_total [OF v, where msgs = five_messages and esi = "Some one_summarized"]
    by blast
qed

text \<open>
  The pass does not start one message before \<^verbatim>\<open>total_summarized_messages\<close>: on the five
  messages with one message summarized it returns the total 4, the cost of the last four
  messages. Counted from index \<^verbatim>\<open>max(0, 1 - 1) = 0\<close> the total would be 5 and reach the
  absolute maximum 5 of this call, which succeeds instead.
\<close>

theorem scan_from_one_before_counterexample:
  "call_count_tokens (test_options 3 1) five_messages (Some one_summarized) = Inr (4, 3)
   \<and> tokens_of (test_options 3 1)
        (drop (nat (max 0 (int (previous_total (Some one_summarized)) - 1)))
           (messages_to_process five_messages)) = 5
   \<and> call_max_total_tokens (test_options 3 1) five_messages = 5
   \<and> summarize_messages (test_options 3 1) five_messages (Some one_summarized) =
     (Inr \<lparr>messages = mock_summary_message # drop 4 five_messages,
           summary_info = Some four_summarized\<rparr>,
      [DEFAULT_EXISTING_SUMMARY_PROMPT (take 3 (drop 1 five_messages))
         ''This is a mock summary.''])"
  by code_simp

subsection \<open>Calling again with the returned summary\<close>

text \<open>
  Claim C1, as the code has it. Let a call return a result and a summary. If that call did
  not invoke the model, or if no message counted has a negative cost and the messages left
  after the returned \<^verbatim>\<open>total_summarized_messages\<close> cost at most the budget of the call in
  total, then the call on the same messages with the returned summary returns the same
  messages and the same summary and does not invoke the model.
\<close>

theorem second_call_identical:
  assumes first: "summarize_messages opts msgs esi = (Inr r, calls)"
    and rest: "calls = []
       \<or> (\<forall>m\<in>set (unsummarized msgs esi). 0 \<le> message_tokens (token_counter opts) m)
          \<and> tokens_of opts (unsummarized msgs (summary_info r)) \<le> call_max_tokens opts msgs"
  shows "summarize_messages opts msgs (summary_info r) = (Inr r, [])"
proof (cases opts msgs esi rule: summarize_messages_cases)
  case invalid
  with first show ?thesis by simp
next
  case empty
  with first show ?thesis by auto
next
  case exceeded
  with first show ?thesis by simp
next
  case (unchanged n idx)
  with first show ?thesis by auto
next
  case (generated n idx slice)
  define si where "si = \<lparr>summary = model opts (summary_messages opts esi slice),
                     summarized_message_ids = map message_id slice,
                     total_summarized_messages = previous_total esi + length slice\<rparr>"
  from generated(7) first have r: "r = \<lparr>messages =
               final_prompt opts (system_message_list (existing_system_message msgs))
                 (model opts (summary_messages opts esi slice))
                 (drop (previous_total esi + length slice) (messages_to_process msgs)),
             summary_info = Some si\<rparr>" and calls: "calls \<noteq> []"
    by (auto simp: si_def)
  have info: "summary_info r = Some si" by (simp add: r)
  have total: "previous_total (Some si) = previous_total esi + length slice"
    by (simp add: previous_total_def si_def)
  from rest calls
  have nonneg: "\<forall>m\<in>set (unsummarized msgs esi). 0 \<le> message_tokens (token_counter opts) m"
    and under: "tokens_of opts (unsummarized msgs (Some si)) \<le> call_max_tokens opts msgs"
    by (simp_all add: info)
  have "\<not> (\<exists>k<length (unsummarized msgs esi).
            call_max_total_tokens opts msgs
              \<le> tokens_of opts (take (Suc k) (unsummarized msgs esi)))"
    using generated(3) by (rule count_tokens_succeeds)
  from suffix_running_totals [OF nonneg this, of "length slice"]
  have nofail: "\<not> (\<exists>k<length (unsummarized msgs (Some si)).
            call_max_total_tokens opts msgs
              \<le> tokens_of opts (take (Suc k) (unsummarized msgs (Some si))))"
    by (simp add: total add.commute)
  from summarize_messages_under_budget [OF generated(1,2) nofail under]
  have "summarize_messages opts msgs (Some si) =
       (Inr \<lparr>messages = final_prompt opts
                 (system_message_list (existing_system_message msgs)) (summary si)
                 (unsummarized msgs (Some si)),
             summary_info = Some si\<rparr>, [])" by simp
  moreover have "summary si = model opts (summary_messages opts esi slice)"
    by (simp add: si_def)
  ultimately show ?thesis by (simp add: info r total)
qed

theorem second_call_identical_witness:
  "summarize_messages (test_options 6 0) nine_messages None =
     (Inr \<lparr>messages = mock_summary_message # drop 6 nine_messages,
           summary_info = Some six_summarized\<rparr>,
      [DEFAULT_INITIAL_SUMMARY_PROMPT (take 6 nine_messages)])
   \<and> list_all (\<lambda>m. 0 \<le> message_tokens (token_counter (test_options 6 0)) m)
         (unsummarized nine_messages None)
   \<and> tokens_of (test_options 6 0) (unsummarized nine_messages (Some six_summarized))
        \<le> call_max_tokens (test_options 6 0) nine_messages
   \<and> summarize_messages (test_options 6 0) nine_messages (Some six_summarized) =
     (Inr \<lparr>messages = mock_summary_message # drop 6 nine_messages,
           summary_info = Some six_summarized\<rparr>, [])"
proof -
  have first: "summarize_messages (test_options 6 0) nine_messages None =
     (Inr \<lparr>messages = mock_summary_message # drop 6 nine_messages,
           summary_info = Some six_summarized\<rparr>,
      [DEFAULT_INITIAL_SUMMARY_PROMPT (take 6 nine_messages)])"
    by code_simp
  have all: "list_all (\<lambda>m. 0 \<le> message_tokens (token_counter (test_options 6 0)) m)
         (unsummarized nine_messages None)"
    by code_simp
  then have nonneg: "\<forall>m\<in>set (unsummarized nine_messages None).
         0 \<le> message_tokens (token_counter (test_options 6 0)) m"
    by (simp only: list_all_iff)
  have under: "tokens_of (test_options 6 0) (unsummarized nine_messages (Some six_summarized))
        \<le> call_max_tokens (test_options 6 0) nine_messages"
    by code_simp
  from second_call_identical [OF first] nonneg under
  have "summarize_messages (test_options 6 0) nine_messages (Some six_summarized) =
     (Inr \<lparr>messages = mock_summary_message # drop 6 nine_messages,
           summary_info = Some six_summarized\<rparr>, [])"
    by simp
  with first all under show ?thesis by blast
qed

text \<open>
  Without the condition the second call can summarize again. On the five messages with
  budget 3 the first call summarizes only the first message, since the two questions
  after it are popped; the four messages left cost 4, more than the budget, so the second
  call invokes the model again and returns another summary and other messages.
\<close>

theorem second_call_summarizes_again_counterexample:
  "max_summary_tokens (test_options 3 0) < max_tokens (test_options 3 0)
   \<and> summarize_messages (test_options 3 0) five_messages None =
     (Inr \<lparr>messages = mock_summary_message # drop 1 five_messages,
           summary_info = Some one_summarized\<rparr>,
      [DEFAULT_INITIAL_SUMMARY_PROMPT (take 1 five_messages)])
   \<and> summarize_messages (test_options 3 0) five_messages (Some one_summarized) =
     (Inr \<lparr>messages = mock_summary_message # drop 4 five_messages,
           summary_info = Some four_summarized\<rparr>,
      [DEFAULT_EXISTING_SUMMARY_PROMPT (take 3 (drop 1 five_messages))
         ''This is a mock summary.''])
   \<and> summarize_messages (test_options 3 0) five_messages (Some one_summarized) \<noteq>
     (Inr \<lparr>messages = mock_summary_message # drop 1 five_messages,
           summary_info = Some one_summarized\<rparr>, [])"
  by code_simp

subsection \<open>The system message\<close>

text \<open>
  Claim C8. Let the first message be a system message, the final prompt the default one,
  and the call succeed. Then the first message returned is that system message. When the
  model is invoked, the summarized slice is a slice of the messages after the system
  message, counted from \<^verbatim>\<open>total_summarized_messages\<close> in that list, and the returned state
  records the ids and the count of that slice only. The counting pass runs over the
  messages after the system message with the budget \<^verbatim>\<open>max_tokens\<close> less the cost of the
  system message, and with the absolute maximum computed from that reduced budget; the
  model is invoked exactly when the total it returns exceeds the reduced budget and the
  popped slice is not empty. The returned state holds no budget: without a model call it
  is the existing summary.
\<close>

theorem system_message_preserved:
  assumes "msgs = SystemMessage c i # rest"
    and "final_prompt opts = DEFAULT_FINAL_SUMMARY_PROMPT"
    and "summarize_messages opts msgs esi = (Inr r, calls)"
    and "budget = max_tokens opts - message_tokens (token_counter opts) (SystemMessage c i)"
  shows "(\<exists>tail. messages r = SystemMessage c i # tail)
    \<and> (calls = [] \<longrightarrow> summary_info r = esi)
    \<and> (calls \<noteq> [] \<longrightarrow>
         (\<exists>k si. 0 < k \<and> previous_total esi + k \<le> length rest
            \<and> calls = [summary_messages opts esi (take k (drop (previous_total esi) rest))]
            \<and> summary_info r = Some si
            \<and> summarized_message_ids si
                = map message_id (take k (drop (previous_total esi) rest))
            \<and> total_summarized_messages si = previous_total esi + k
            \<and> messages r = SystemMessage c i
                # SystemMessage (''Summary of conversation earlier: '' @ summary si) None
                # drop (previous_total esi + k) rest))
    \<and> (rest \<noteq> [] \<longrightarrow>
         (\<exists>n idx. count_tokens (token_counter opts) budget
                     (max_total_tokens budget (max_summary_tokens opts)) rest
                     (previous_total esi) = Inr (n, idx)
            \<and> n = tokens_of opts (drop (previous_total esi) rest)
            \<and> (calls \<noteq> [] \<longleftrightarrow>
                  budget < n
                  \<and> pop_unsafe (take (idx + 1 - previous_total esi)
                                  (drop (previous_total esi) rest)) \<noteq> [])))"
proof (intro conjI impI)
  note split = system_message_split [OF assms(1)]
  show "\<exists>tail. messages r = SystemMessage c i # tail"
    using split(1) assms(2,3) by (rule system_message_first)
  show "summary_info r = esi" if "calls = []"
    using assms(3) that by (auto intro: summarize_messages_not_generated)
  show "\<exists>k si. 0 < k \<and> previous_total esi + k \<le> length rest
            \<and> calls = [summary_messages opts esi (take k (drop (previous_total esi) rest))]
            \<and> summary_info r = Some si
            \<and> summarized_message_ids si
                = map message_id (take k (drop (previous_total esi) rest))
            \<and> total_summarized_messages si = previous_total esi + k
            \<and> messages r = SystemMessage c i
                # SystemMessage (''Summary of conversation earlier: '' @ summary si) None
                # drop (previous_total esi + k) rest" if "calls \<noteq> []"
  proof -
    from assms(3) that obtain k where k: "0 < k"
      "previous_total esi + k \<le> length (messages_to_process msgs)"
      "calls = [summary_messages opts esi (take k (unsummarized msgs esi))]"
      "(Inr r :: error + SummarizationResult) = Inr \<lparr>messages =
               final_prompt opts (system_message_list (existing_system_message msgs))
                 (model opts (summary_messages opts esi (take k (unsummarized msgs esi))))
                 (drop (previous_total esi + k) (messages_to_process msgs)),
             summary_info =
               Some \<lparr>summary = model opts
                                  (summary_messages opts esi (take k (unsummarized msgs esi))),
                     summarized_message_ids = map message_id (take k (unsummarized msgs esi)),
                     total_summarized_messages = previous_total esi + k\<rparr>\<rparr>"
      by (rule summarize_messages_generated) blast
    define si where "si = \<lparr>summary = model opts
                                  (summary_messages opts esi (take k (unsummarized msgs esi))),
                     summarized_message_ids = map message_id (take k (unsummarized msgs esi)),
                     total_summarized_messages = previous_total esi + k\<rparr>"
    from k(4) have "summary_info r = Some si"
      and "messages r = SystemMessage c i
                # SystemMessage (''Summary of conversation earlier: '' @ summary si) None
                # drop (previous_total esi + k) rest"
      by (simp_all add: si_def split assms(2) system_message_list_def
          DEFAULT_FINAL_SUMMARY_PROMPT_def)
    moreover have "summarized_message_ids si
                = map message_id (take k (drop (previous_total esi) rest))"
      and "total_summarized_messages si = previous_total esi + k"
      by (simp_all add: si_def split)
    ultimately show ?thesis using k(1,2,3) unfolding split by blast
  qed
  show "\<exists>n idx. count_tokens (token_counter opts) budget
                     (max_total_tokens budget (max_summary_tokens opts)) rest
                     (previous_total esi) = Inr (n, idx)
            \<and> n = tokens_of opts (drop (previous_total esi) rest)
            \<and> (calls \<noteq> [] \<longleftrightarrow>
                  budget < n
                  \<and> pop_unsafe (take (idx + 1 - previous_total esi)
                                  (drop (previous_total esi) rest)) \<noteq> [])"
    if "rest \<noteq> []"
  proof (cases opts msgs esi rule: summarize_messages_cases)
    case invalid
    with assms(3) show ?thesis by simp
  next
    case empty
    with that show ?thesis by (simp add: split)
  next
    case exceeded
    with assms(3) show ?thesis by simp
  next
    case (unchanged n idx)
    from unchanged(3) have "n = tokens_of opts (unsummarized msgs esi)"
      by (rule count_tokens_Inr)
    with unchanged(3,4,5) assms(3) show ?thesis
      unfolding split assms(4) by (intro exI[of _ n] exI[of _ idx]) auto
  next
    case (generated n idx slice)
    from generated(3) have "n = tokens_of opts (unsummarized msgs esi)"
      by (rule count_tokens_Inr)
    with generated(3,4,5,6,7) assms(3) show ?thesis
      unfolding split assms(4) by (intro exI[of _ n] exI[of _ idx]) auto
  qed
qed

theorem system_message_preserved_witness:
  "helpful_assistant # nine_messages
      = SystemMessage ''You are a helpful assistant.'' None # nine_messages
   \<and> final_prompt (test_options 6 0) = DEFAULT_FINAL_SUMMARY_PROMPT
   \<and> summarize_messages (test_options 6 0) (helpful_assistant # nine_messages) None =
       (Inr \<lparr>messages = helpful_assistant # mock_summary_message # drop 4 nine_messages,
             summary_info = Some first_four_summarized\<rparr>,
        [DEFAULT_INITIAL_SUMMARY_PROMPT (take 4 nine_messages)])
   \<and> (5::int) = max_tokens (test_options 6 0)
        - message_tokens (token_counter (test_options 6 0))
            (SystemMessage ''You are a helpful assistant.'' None)
   \<and> nine_messages \<noteq> []
   \<and> (\<exists>n idx. count_tokens (token_counter (test_options 6 0)) 5
                     (max_total_tokens 5 (max_summary_tokens (test_options 6 0))) nine_messages
                     (previous_total None) = Inr (n, idx)
            \<and> 5 < n)"
proof -
  have h1: "helpful_assistant # nine_messages
      = SystemMessage ''You are a helpful assistant.'' None # nine_messages"
    by (simp add: helpful_assistant_def)
  have h2: "final_prompt (test_options 6 0) = DEFAULT_FINAL_SUMMARY_PROMPT"
    by (simp add: test_options_def default_options_def)
  have h3: "summarize_messages (test_options 6 0) (helpful_assistant # nine_messages) None =
       (Inr \<lparr>messages = helpful_assistant # mock_summary_message # drop 4 nine_messages,
             summary_info = Some first_four_summarized\<rparr>,
        [DEFAULT_INITIAL_SUMMARY_PROMPT (take 4 nine_messages)])"
    by code_simp
  have h4: "(5::int) = max_tokens (test_options 6 0)
        - message_tokens (token_counter (test_options 6 0))
            (SystemMessage ''You are a helpful assistant.'' None)"
    by code_simp
  have h5: "nine_messages \<noteq> []"
    by code_simp
  from system_message_preserved [OF h1 h2 h3 h4] h5
  have "\<exists>n idx. count_tokens (token_counter (test_options 6 0)) 5
                     (max_total_tokens 5 (max_summary_tokens (test_options 6 0))) nine_messages
                     (previous_total None) = Inr (n, idx)
            \<and> 5 < n"
    by auto
  with h1 h2 h3 h4 h5 show ?thesis by blast
qed

text \<open>
  Claim C10. The configuration error is raised exactly when \<^verbatim>\<open>max_summary_tokens\<close> is at
  least the \<^verbatim>\<open>max_tokens\<close> the caller passed, whatever the system message costs. With
  \<^verbatim>\<open>max_tokens = 1\<close>, \<^verbatim>\<open>max_summary_tokens = 0\<close> and \<^verbatim>\<open>len\<close> as the counter, a system
  message costs 1, the budget of the call becomes 0, no more than \<^verbatim>\<open>max_summary_tokens\<close>,
  and the absolute maximum becomes 0: the first message counted costs 1, which fits the
  \<^verbatim>\<open>max_tokens\<close> passed, and the call fails with the budget error. With characters as
  tokens and \<^verbatim>\<open>max_tokens = 6\<close> the budget of the call is negative, and the error is
  still not the configuration error.
\<close>

theorem configuration_checked_before_system_message:
  "(fst (summarize_messages opts msgs esi) = Inl InvalidConfiguration
      \<longleftrightarrow> max_tokens opts \<le> max_summary_tokens opts)
   \<and> max_summary_tokens (test_options 1 0) < max_tokens (test_options 1 0)
   \<and> max_tokens (test_options 1 0) - max_summary_tokens (test_options 1 0)
       \<le> message_tokens (token_counter (test_options 1 0)) helpful_assistant
   \<and> call_max_tokens (test_options 1 0) (helpful_assistant # nine_messages)
       \<le> max_summary_tokens (test_options 1 0)
   \<and> call_max_total_tokens (test_options 1 0) (helpful_assistant # nine_messages) = 0
   \<and> message_tokens (token_counter (test_options 1 0)) (nine_messages ! 0)
       \<le> max_tokens (test_options 1 0)
   \<and> summarize_messages (test_options 1 0) (helpful_assistant # nine_messages) None
       = (Inl (BudgetExceeded 0), [])
   \<and> call_max_tokens (character_options 6 0) (helpful_assistant # nine_messages) < 0
   \<and> fst (summarize_messages (character_options 6 0) (helpful_assistant # nine_messages) None)
       \<noteq> Inl InvalidConfiguration"
proof -
  have "fst (summarize_messages opts msgs esi) = Inl InvalidConfiguration
      \<longleftrightarrow> max_tokens opts \<le> max_summary_tokens opts"
  proof (cases opts msgs esi rule: summarize_messages_cases)
    case (unchanged n idx)
    then show ?thesis by simp
  next
    case (generated n idx slice)
    then show ?thesis by simp
  qed simp_all
  moreover have "max_summary_tokens (test_options 1 0) < max_tokens (test_options 1 0)
   \<and> max_tokens (test_options 1 0) - max_summary_tokens (test_options 1 0)
       \<le> message_tokens (token_counter (test_options 1 0)) helpful_assistant
   \<and> call_max_tokens (test_options 1 0) (helpful_assistant # nine_messages)
       \<le> max_summary_tokens (test_options 1 0)
   \<and> call_max_total_tokens (test_options 1 0) (helpful_assistant # nine_messages) = 0
   \<and> message_tokens (token_counter (test_options 1 0)) (nine_messages ! 0)
       \<le> max_tokens (test_options 1 0)
   \<and> summarize_messages (test_options 1 0) (helpful_assistant # nine_messages) None
       = (Inl (BudgetExceeded 0), [])
   \<and> call_max_tokens (character_options 6 0) (helpful_assistant # nine_messages) < 0
   \<and> fst (summarize_messages (character_options 6 0) (helpful_assistant # nine_messages) None)
       \<noteq> Inl InvalidConfiguration"
    by code_simp
  ultimately show ?thesis by blast
qed

end
